theory Spec2Isabelle
  imports Main "HOL-Library.Sublist"
begin

section \<open>The events screen: data model\<close>

text \<open>
  The screen \<^verbatim>\<open>src/app/drawer/Events.tsx\<close> keeps a list of event records, fetched from a
  REST endpoint, and shows the ones that have not ended yet, one per identifier.
  The record type is the interface \<^verbatim>\<open>EventData\<close> of the source, field by field; the
  identifier is the integer the endpoint sends.
\<close>

record EventData =
  event_id :: int
  event_name :: string
  start_time :: string
  end_time :: string
  location :: "string option"
  description :: string
  privacy :: string
  story :: "string option"
  repeat_event :: string

subsection \<open>Dates\<close>

text \<open>
  A JavaScript \<^verbatim>\<open>Date\<close> holds a time value: a whole number of milliseconds since the
  epoch, or NaN (an invalid date). \<open>None\<close> is the invalid date. The constructor
  \<^verbatim>\<open>new Date(s)\<close> on a string never throws: an unparseable string gives the invalid
  date. The parser belongs to the JavaScript runtime, so it is a parameter \<open>parseDate\<close>
  of everything below. The comparison \<^verbatim>\<open>a >= b\<close> of two dates compares their time
  values as numbers, and any comparison with NaN is false.
\<close>

type_synonym date = "int option"

definition date_ge :: "date \<Rightarrow> date \<Rightarrow> bool" where
  "date_ge a b =
     (case a of
        None \<Rightarrow> False
      | Some x \<Rightarrow> (case b of None \<Rightarrow> False | Some y \<Rightarrow> y \<le> x))"

subsection \<open>The insertion-ordered Map\<close>

text \<open>
  A JavaScript \<^verbatim>\<open>Map\<close> iterates in insertion order, and \<^verbatim>\<open>set\<close> on a key that is
  present replaces the value in place. It is an association list with one entry per key.
\<close>

type_synonym ('k, 'v) js_map = "('k \<times> 'v) list"

definition Map_has :: "('k, 'v) js_map \<Rightarrow> 'k \<Rightarrow> bool" where
  "Map_has m k = (k \<in> fst ` set m)"

fun Map_set :: "('k, 'v) js_map \<Rightarrow> 'k \<Rightarrow> 'v \<Rightarrow> ('k, 'v) js_map" where
  "Map_set [] k v = [(k, v)]"
| "Map_set (p # ps) k v = (if fst p = k then (k, v) # ps else p # Map_set ps k v)"

definition Map_values :: "('k, 'v) js_map \<Rightarrow> 'v list" where
  "Map_values m = map snd m"

section \<open>Filtering and deduplication\<close>

text \<open>
  The filter of \<^verbatim>\<open>fetchEventData\<close> (lines 81 to 84): an event is kept when the date made
  from its \<^verbatim>\<open>end_time\<close> is at or after \<^verbatim>\<open>now\<close>. \<^verbatim>\<open>now\<close> is \<^verbatim>\<open>new Date()\<close>, the
  clock's reading, which is always a valid date.
\<close>

definition upcomingEvents ::
  "(string \<Rightarrow> date) \<Rightarrow> int \<Rightarrow> EventData list \<Rightarrow> EventData list" where
  "upcomingEvents parseDate now data =
     filter (\<lambda>event. let eventEndTime = parseDate (end_time event)
                     in date_ge eventEndTime (Some now)) data"

text \<open>
  \<^verbatim>\<open>removeDuplicateEvents\<close> (lines 104 to 113): the \<^verbatim>\<open>forEach\<close> loop is a left fold
  over the events, carrying the map.
\<close>

definition removeDuplicateEvents :: "EventData list \<Rightarrow> EventData list" where
  "removeDuplicateEvents events =
     Map_values
       (foldl (\<lambda>uniqueEventMap event.
                 if \<not> Map_has uniqueEventMap (event_id event)
                 then Map_set uniqueEventMap (event_id event) event
                 else uniqueEventMap)
              [] events)"

text \<open>
  The reconciliation is what \<^verbatim>\<open>fetchEventData\<close> does to the fetched array (lines 78
  to 87): the filter, then \<^verbatim>\<open>removeDuplicateEvents\<close> on its result.
\<close>

definition reconcile ::
  "(string \<Rightarrow> date) \<Rightarrow> int \<Rightarrow> EventData list \<Rightarrow> EventData list" where
  "reconcile parseDate now data =
     (let upcoming = upcomingEvents parseDate now data;
          uniqueEvents = removeDuplicateEvents upcoming
      in uniqueEvents)"

section \<open>The screen's state and its two requests\<close>

record screen_state =
  events :: "EventData list"
  loading :: bool
  userId :: "string option"

definition initial_state :: screen_state where
  "initial_state = \<lparr>events = [], loading = True, userId = None\<rparr>"

text \<open>What the requests do besides changing the state: console output and alert dialogs.\<close>

datatype effect =
    ConsoleLog string "EventData list"
  | ConsoleError string
  | Alert string string

text \<open>
  What a fetch of the event source can come to: the request itself is rejected, the
  response is not \<^verbatim>\<open>ok\<close> (with its status), reading the body as JSON is rejected, or
  the body is JSON. JSON that is an array is an array of event records, as the source
  types it; anything else is \<open>JsonOther\<close>.
\<close>

datatype payload = JsonArray "EventData list" | JsonOther

datatype fetch_response =
    FetchRejected
  | HttpNotOk nat
  | JsonRejected
  | JsonData payload

text \<open>
  \<^verbatim>\<open>fetchEventData\<close> (lines 62 to 99). With no user identifier nothing happens. Otherwise
  \<^verbatim>\<open>loading\<close> is set, the response is handled, and every path ends with \<^verbatim>\<open>loading\<close>
  cleared (the early return of the HTTP error path and the \<^verbatim>\<open>finally\<close> block).
  \<^verbatim>\<open>setEvents\<close> is called on the array path only.
\<close>

definition fetchEventData ::
  "(string \<Rightarrow> date) \<Rightarrow> int \<Rightarrow> fetch_response \<Rightarrow> screen_state
     \<Rightarrow> screen_state \<times> effect list" where
  "fetchEventData parseDate now response s =
     (case userId s of
        None \<Rightarrow> (s, [])
      | Some uid \<Rightarrow>
          (let s1 = s\<lparr>loading := True\<rparr> in
           case response of
             FetchRejected \<Rightarrow> (s1\<lparr>loading := False\<rparr>, [ConsoleError ''Fetch error:''])
           | HttpNotOk status \<Rightarrow> (s1\<lparr>loading := False\<rparr>, [ConsoleError ''HTTP error:''])
           | JsonRejected \<Rightarrow> (s1\<lparr>loading := False\<rparr>, [ConsoleError ''Fetch error:''])
           | JsonData (JsonArray data) \<Rightarrow>
               (let uniqueEvents = reconcile parseDate now data
                in (s1\<lparr>events := uniqueEvents, loading := False\<rparr>,
                    [ConsoleLog ''Fetched events:'' uniqueEvents]))
           | JsonData JsonOther \<Rightarrow>
               (s1\<lparr>loading := False\<rparr>, [ConsoleError ''Invalid data format:''])))"

text \<open>
  What a deletion request can come to: the request is rejected, the response is \<^verbatim>\<open>ok\<close>,
  or it is not. In the last case the body is read as JSON for its \<^verbatim>\<open>message\<close>: the
  read can be rejected, and the message can be absent.
\<close>

datatype error_data = ErrorJsonRejected | ErrorData "string option"

datatype delete_response =
    DeleteRejected
  | DeleteOk
  | DeleteNotOk error_data

text \<open>
  \<^verbatim>\<open>deleteEvent\<close> (lines 135 to 166). \<^verbatim>\<open>errorData.message || ...\<close> takes the generic
  text when the message is absent or empty.
\<close>

definition deleteEvent ::
  "delete_response \<Rightarrow> int \<Rightarrow> screen_state \<Rightarrow> screen_state \<times> effect list" where
  "deleteEvent response eventId s =
     (case response of
        DeleteRejected \<Rightarrow>
          (s, [ConsoleError ''Network error:'',
               Alert ''Error'' ''An error occurred while deleting the event.''])
      | DeleteOk \<Rightarrow>
          (s\<lparr>events := filter (\<lambda>event. event_id event \<noteq> eventId) (events s)\<rparr>,
           [Alert ''Success'' ''Event deleted successfully!''])
      | DeleteNotOk ErrorJsonRejected \<Rightarrow>
          (s, [ConsoleError ''Network error:'',
               Alert ''Error'' ''An error occurred while deleting the event.''])
      | DeleteNotOk (ErrorData message) \<Rightarrow>
          (s, [ConsoleError ''Delete error:'',
               Alert ''Error''
                 (case message of
                    None \<Rightarrow> ''Failed to delete the event.''
                  | Some msg \<Rightarrow> if msg = [] then ''Failed to delete the event.'' else msg)]))"

text \<open>
  What the screen shows for a state (lines 184 to 273): the loading text, one card per
  event, or the text that there are no events.
\<close>

datatype screen_view = LoadingText | EventCards "EventData list" | NoDataText

definition render :: "screen_state \<Rightarrow> screen_view" where
  "render s =
     (if loading s then LoadingText
      else if length (events s) > 0 then EventCards (events s)
      else NoDataText)"

section \<open>The specification's notions\<close>

text \<open>
  The specification describes the reconciliation in two steps. These definitions follow
  its words, not the code, and are compared with the code below. The temporal filter
  keeps the records whose end time is at or after \<open>now\<close>, and a record whose end
  time cannot be read is excluded.
\<close>

fun spec_temporal_filter ::
  "(string \<Rightarrow> date) \<Rightarrow> int \<Rightarrow> EventData list \<Rightarrow> EventData list" where
  "spec_temporal_filter parseDate now [] = []"
| "spec_temporal_filter parseDate now (r # rs) =
     (case parseDate (end_time r) of
        None \<Rightarrow> spec_temporal_filter parseDate now rs
      | Some t \<Rightarrow>
          if now \<le> t then r # spec_temporal_filter parseDate now rs
          else spec_temporal_filter parseDate now rs)"

text \<open>
  Deduplication by identifier goes through the records in their order, keeps a record
  whose identifier has not been seen, and discards every later record with a seen
  identifier, whatever its other fields are.
\<close>

fun spec_dedupe :: "int list \<Rightarrow> EventData list \<Rightarrow> EventData list" where
  "spec_dedupe seen [] = []"
| "spec_dedupe seen (r # rs) =
     (if event_id r \<in> set seen then spec_dedupe seen rs
      else r # spec_dedupe (event_id r # seen) rs)"

definition spec_reconcile ::
  "(string \<Rightarrow> date) \<Rightarrow> int \<Rightarrow> EventData list \<Rightarrow> EventData list" where
  "spec_reconcile parseDate now records =
     spec_dedupe [] (spec_temporal_filter parseDate now records)"

text \<open>The first record of a list that bears a given identifier, if there is one.\<close>

definition first_with_id :: "int \<Rightarrow> EventData list \<Rightarrow> EventData option" where
  "first_with_id i records = find (\<lambda>r. event_id r = i) records"

text \<open>
  The positions of an input list whose records are retained: the record there has not
  ended, and no record before it that has not ended bears the same identifier.
\<close>

definition retained :: "(string \<Rightarrow> date) \<Rightarrow> int \<Rightarrow> EventData list \<Rightarrow> nat \<Rightarrow> bool" where
  "retained parseDate now l i \<longleftrightarrow>
     i < length l \<and>
     date_ge (parseDate (end_time (l ! i))) (Some now) \<and>
     (\<forall>r \<in> set (take i l).
        date_ge (parseDate (end_time r)) (Some now) \<longrightarrow> event_id r \<noteq> event_id (l ! i))"

section \<open>The scenarios of the specification\<close>

text \<open>
  The time values of the dates in the specification's scenarios, as every ECMAScript
  runtime reads them (a date-only ISO string is midnight UTC); any other string of the
  scenarios is not a date.
\<close>

definition scenario_parseDate :: "string \<Rightarrow> date" where
  "scenario_parseDate s =
     (if s = ''2099-01-01'' then Some 4070908800000
      else if s = ''2099-06-01'' then Some 4083955200000
      else if s = ''2000-01-01'' then Some 946684800000
      else None)"

definition scenario_now :: int where
  "scenario_now = 1704067200000"

definition mk_event :: "int \<Rightarrow> string \<Rightarrow> string \<Rightarrow> EventData" where
  "mk_event i name end =
     \<lparr>event_id = i, event_name = name, start_time = ''2000-01-01'', end_time = end,
      location = None, description = [], privacy = ''public'', story = None,
      repeat_event = ''none''\<rparr>"

definition scenario_input :: "EventData list" where
  "scenario_input =
     [mk_event 1 ''first'' ''2099-01-01'',
      mk_event 1 ''second'' ''2099-06-01'',
      mk_event 2 ''past'' ''2000-01-01'']"

text \<open>
  The state once the user identifier has been read from storage (lines 41 to 58) and
  before the first fetch has been handled.
\<close>

definition scenario_state :: screen_state where
  "scenario_state = initial_state\<lparr>userId := Some ''7''\<rparr>"

text \<open>The state of the screen after a fetch that brought the scenario's array.\<close>

definition scenario_loaded :: screen_state where
  "scenario_loaded =
     fst (fetchEventData scenario_parseDate scenario_now (JsonData (JsonArray scenario_input))
            scenario_state)"

text \<open>Three records with three identifiers, the middle one ended.\<close>

definition scenario_mixed :: "EventData list" where
  "scenario_mixed =
     [mk_event 1 ''first'' ''2099-01-01'',
      mk_event 2 ''past'' ''2000-01-01'',
      mk_event 3 ''third'' ''2099-06-01'']"

section \<open>Facts about the Map and the deduplication loop\<close>

lemmas scenario_eval =
  reconcile_def upcomingEvents_def removeDuplicateEvents_def Map_has_def Map_values_def
  date_ge_def scenario_parseDate_def scenario_now_def mk_event_def scenario_input_def

lemma Map_set_fresh: "\<not> Map_has m k \<Longrightarrow> Map_set m k v = m @ [(k, v)]"
  by (induction m) (auto simp: Map_has_def)

lemma upcomingEvents_snoc:
  "upcomingEvents parseDate now (l @ [e]) =
     upcomingEvents parseDate now l
       @ (if date_ge (parseDate (end_time e)) (Some now) then [e] else [])"
  by (simp add: upcomingEvents_def)

lemma upcomingEvents_set:
  "set (upcomingEvents parseDate now l) =
     {e \<in> set l. date_ge (parseDate (end_time e)) (Some now)}"
  by (simp add: upcomingEvents_def)

lemma dedupe_loop_keys:
  "fst ` set (foldl (\<lambda>m e. if \<not> Map_has m (event_id e) then Map_set m (event_id e) e else m)
                 [] es)
     = event_id ` set es"
proof (induction es rule: rev_induct)
  case Nil
  show ?case by simp
next
  case (snoc e es)
  then show ?case
    by (auto simp: Map_set_fresh Map_has_def)
qed

lemma removeDuplicateEvents_Nil: "removeDuplicateEvents [] = []"
  by (simp add: removeDuplicateEvents_def Map_values_def)

lemma removeDuplicateEvents_snoc:
  "removeDuplicateEvents (es @ [e]) =
     removeDuplicateEvents es @ (if event_id e \<in> event_id ` set es then [] else [e])"
proof -
  let ?step = "\<lambda>m e. if \<not> Map_has m (event_id e) then Map_set m (event_id e) e else m"
  have "Map_has M k \<longleftrightarrow> k \<in> fst ` set M" for M :: "(int, EventData) js_map" and k
    by (simp add: Map_has_def)
  from this [of "foldl ?step [] es" "event_id e"]
  have keys: "Map_has (foldl ?step [] es) (event_id e) \<longleftrightarrow> event_id e \<in> event_id ` set es"
    by (simp only: dedupe_loop_keys [of es])
  show ?thesis
  proof (cases "event_id e \<in> event_id ` set es")
    case True
    with keys show ?thesis
      by (simp add: removeDuplicateEvents_def)
  next
    case False
    with keys have "\<not> Map_has (foldl ?step [] es) (event_id e)" by simp
    then have "foldl ?step [] (es @ [e]) = foldl ?step [] es @ [(event_id e, e)]"
      by (simp add: Map_set_fresh)
    with False show ?thesis
      by (simp add: removeDuplicateEvents_def Map_values_def)
  qed
qed

lemma removeDuplicateEvents_ids:
  "event_id ` set (removeDuplicateEvents es) = event_id ` set es"
  by (induction es rule: rev_induct)
     (auto simp: removeDuplicateEvents_Nil removeDuplicateEvents_snoc)

lemma removeDuplicateEvents_subset: "set (removeDuplicateEvents es) \<subseteq> set es"
  by (induction es rule: rev_induct)
     (auto simp: removeDuplicateEvents_Nil removeDuplicateEvents_snoc)

lemma removeDuplicateEvents_distinct: "distinct (map event_id (removeDuplicateEvents es))"
proof (induction es rule: rev_induct)
  case Nil
  show ?case by (simp add: removeDuplicateEvents_Nil)
next
  case (snoc e es)
  have "event_id e \<notin> event_id ` set es \<Longrightarrow> event_id e \<notin> event_id ` set (removeDuplicateEvents es)"
    by (simp add: removeDuplicateEvents_ids)
  with snoc show ?case
    by (simp add: removeDuplicateEvents_snoc)
qed

lemma removeDuplicateEvents_fixed:
  "distinct (map event_id es) \<Longrightarrow> removeDuplicateEvents es = es"
  by (induction es rule: rev_induct)
     (auto simp: removeDuplicateEvents_Nil removeDuplicateEvents_snoc)

lemma removeDuplicateEvents_subseq: "subseq (removeDuplicateEvents es) es"
proof (induction es rule: rev_induct)
  case Nil
  show ?case by (simp add: removeDuplicateEvents_Nil)
next
  case (snoc e es)
  show ?case
  proof (cases "event_id e \<in> event_id ` set es")
    case True
    with snoc show ?thesis
      by (simp add: removeDuplicateEvents_snoc subseq_rev_drop_many)
  next
    case False
    with snoc show ?thesis
      by (simp add: removeDuplicateEvents_snoc)
  qed
qed

lemma reconcile_eq:
  "reconcile parseDate now l = removeDuplicateEvents (upcomingEvents parseDate now l)"
  by (simp add: reconcile_def)

lemma reconcile_subseq: "subseq (reconcile parseDate now l) l"
proof -
  have "subseq (upcomingEvents parseDate now l) l"
    by (simp add: upcomingEvents_def)
  with removeDuplicateEvents_subseq [of "upcomingEvents parseDate now l"]
  show ?thesis
    unfolding reconcile_eq by (rule subseq_order.order_trans)
qed

lemma reconcile_set_upcoming:
  "e \<in> set (reconcile parseDate now l)
     \<Longrightarrow> e \<in> set l \<and> date_ge (parseDate (end_time e)) (Some now)"
  using removeDuplicateEvents_subset [of "upcomingEvents parseDate now l"]
  by (auto simp: reconcile_eq upcomingEvents_set)

lemma date_ge_Some: "date_ge d (Some now) \<longleftrightarrow> (\<exists>t. d = Some t \<and> now \<le> t)"
  by (cases d) (simp_all add: date_ge_def)

subsection \<open>The code against the specification's two steps\<close>

lemma spec_temporal_filter_eq:
  "spec_temporal_filter parseDate now l = upcomingEvents parseDate now l"
  by (induction l) (auto simp: upcomingEvents_def date_ge_def split: option.splits)

lemma spec_dedupe_snoc:
  "spec_dedupe seen (rs @ [r]) =
     spec_dedupe seen rs
       @ (if event_id r \<in> set seen \<union> event_id ` set rs then [] else [r])"
  by (induction rs arbitrary: seen) auto

lemma spec_dedupe_eq: "spec_dedupe [] es = removeDuplicateEvents es"
  by (induction es rule: rev_induct)
     (simp_all add: removeDuplicateEvents_Nil removeDuplicateEvents_snoc spec_dedupe_snoc)

lemma reconcile_ids:
  "event_id ` set (reconcile parseDate now l)
     = event_id ` {e \<in> set l. date_ge (parseDate (end_time e)) (Some now)}"
  by (simp add: reconcile_eq removeDuplicateEvents_ids upcomingEvents_set)

subsection \<open>First occurrences\<close>

lemma first_with_id_snoc:
  "first_with_id i (rs @ [r]) =
     (case first_with_id i rs of
        Some x \<Rightarrow> Some x
      | None \<Rightarrow> if event_id r = i then Some r else None)"
  by (induction rs) (simp_all add: first_with_id_def)

lemma first_with_id_None: "first_with_id i rs = None \<longleftrightarrow> i \<notin> event_id ` set rs"
  by (auto simp: first_with_id_def find_None_iff)

lemma removeDuplicateEvents_first:
  "e \<in> set (removeDuplicateEvents es) \<Longrightarrow> first_with_id (event_id e) es = Some e"
proof (induction es rule: rev_induct)
  case Nil
  then show ?case by (simp add: removeDuplicateEvents_Nil)
next
  case (snoc x es)
  show ?case
  proof (cases "e \<in> set (removeDuplicateEvents es)")
    case True
    with snoc.IH show ?thesis
      by (simp add: first_with_id_snoc)
  next
    case False
    with snoc.prems have "e = x" and "event_id x \<notin> event_id ` set es"
      by (auto simp: removeDuplicateEvents_snoc split: if_splits)
    then show ?thesis
      using first_with_id_None [of "event_id x" es] by (simp add: first_with_id_snoc)
  qed
qed

subsection \<open>The retained positions\<close>

lemma reconcile_snoc:
  "reconcile parseDate now (l @ [e]) =
     reconcile parseDate now l
       @ (if date_ge (parseDate (end_time e)) (Some now) \<and>
             (\<forall>r \<in> set l. date_ge (parseDate (end_time r)) (Some now)
                 \<longrightarrow> event_id r \<noteq> event_id e)
          then [e] else [])"
  by (auto simp: reconcile_eq upcomingEvents_snoc removeDuplicateEvents_snoc upcomingEvents_set
        image_iff)

lemma retained_snoc_old:
  "i < length l \<Longrightarrow> retained parseDate now (l @ [e]) i = retained parseDate now l i"
  by (simp add: retained_def nth_append)

lemma retained_snoc_new:
  "retained parseDate now (l @ [e]) (length l) \<longleftrightarrow>
     date_ge (parseDate (end_time e)) (Some now) \<and>
     (\<forall>r \<in> set l. date_ge (parseDate (end_time r)) (Some now) \<longrightarrow> event_id r \<noteq> event_id e)"
  by (simp add: retained_def)

lemma reconcile_positions:
  "reconcile parseDate now l
     = map (nth l) (filter (retained parseDate now l) [0..<length l])"
proof (induction l rule: rev_induct)
  case Nil
  show ?case by (simp add: reconcile_eq upcomingEvents_def removeDuplicateEvents_Nil)
next
  case (snoc e l)
  have old: "filter (retained parseDate now (l @ [e])) [0..<length l]
               = filter (retained parseDate now l) [0..<length l]"
    by (rule filter_cong) (simp_all add: retained_snoc_old)
  have nth_old: "map (nth (l @ [e])) (filter (retained parseDate now l) [0..<length l])
               = map (nth l) (filter (retained parseDate now l) [0..<length l])"
    by (rule map_cong) (simp_all add: nth_append)
  have "map (nth (l @ [e])) (filter (retained parseDate now (l @ [e])) [0..<length (l @ [e])])
          = map (nth (l @ [e])) (filter (retained parseDate now (l @ [e])) [0..<length l])
              @ (if retained parseDate now (l @ [e]) (length l) then [e] else [])"
    by simp
  also have "map (nth (l @ [e])) (filter (retained parseDate now (l @ [e])) [0..<length l])
          = reconcile parseDate now l"
    by (simp only: old nth_old snoc.IH)
  finally show ?case
    by (simp only: reconcile_snoc retained_snoc_new)
qed

section \<open>The claims\<close>

text \<open>
  C1. Every record in the output of the reconciliation is a record of the input whose
  end time reads as an instant at or after \<open>now\<close>, and a record whose end time is
  before \<open>now\<close> is not in the output. This holds for every input list, every instant and
  every date parser.
\<close>

theorem reconcile_not_ended:
  "(\<forall>e \<in> set (reconcile parseDate now l).
      e \<in> set l \<and> (\<exists>t. parseDate (end_time e) = Some t \<and> now \<le> t)) \<and>
   (\<forall>e t. parseDate (end_time e) = Some t \<and> t < now
      \<longrightarrow> e \<notin> set (reconcile parseDate now l))"
proof -
  have kept: "e \<in> set l \<and> (\<exists>t. parseDate (end_time e) = Some t \<and> now \<le> t)"
    if "e \<in> set (reconcile parseDate now l)" for e
    using reconcile_set_upcoming [OF that] by (simp add: date_ge_Some)
  have dropped: "e \<notin> set (reconcile parseDate now l)"
    if "parseDate (end_time e) = Some t \<and> t < now" for e t
    using that kept [of e] by auto
  from kept dropped show ?thesis
    by blast
qed

theorem reconcile_not_ended_witness:
  "mk_event 1 ''first'' ''2099-01-01''
     \<in> set (reconcile scenario_parseDate scenario_now scenario_input) \<and>
   scenario_parseDate (end_time (mk_event 1 ''first'' ''2099-01-01'')) = Some 4070908800000 \<and>
   scenario_now \<le> 4070908800000 \<and>
   scenario_parseDate (end_time (mk_event 2 ''past'' ''2000-01-01'')) = Some 946684800000 \<and>
   946684800000 < scenario_now \<and>
   mk_event 2 ''past'' ''2000-01-01''
     \<notin> set (reconcile scenario_parseDate scenario_now scenario_input)"
proof -
  have parsed: "scenario_parseDate (end_time (mk_event 2 ''past'' ''2000-01-01'')) = Some 946684800000
      \<and> 946684800000 < scenario_now"
    by (simp add: scenario_parseDate_def scenario_now_def mk_event_def)
  have kept: "mk_event 1 ''first'' ''2099-01-01''
     \<in> set (reconcile scenario_parseDate scenario_now scenario_input)"
    by (simp add: scenario_eval)
  from reconcile_not_ended [of scenario_parseDate scenario_now scenario_input] parsed
  have "mk_event 2 ''past'' ''2000-01-01''
     \<notin> set (reconcile scenario_parseDate scenario_now scenario_input)"
    by blast
  moreover from reconcile_not_ended [of scenario_parseDate scenario_now scenario_input] kept
  have "\<exists>t. scenario_parseDate (end_time (mk_event 1 ''first'' ''2099-01-01'')) = Some t
          \<and> scenario_now \<le> t"
    by blast
  then have "scenario_parseDate (end_time (mk_event 1 ''first'' ''2099-01-01'')) = Some 4070908800000 \<and>
   scenario_now \<le> 4070908800000"
    by (simp add: scenario_parseDate_def scenario_now_def mk_event_def)
  ultimately show ?thesis
    using parsed kept by simp
qed

text \<open>
  C2. As the claim is worded it fails: the record kept for an identifier is not always
  the first record of the input with that identifier, because the filter runs first. What
  holds: the output has at most one record per identifier, and the record kept is the first
  one with that identifier among the input records that have not ended (the list the
  filter hands to \<^verbatim>\<open>removeDuplicateEvents\<close>), whatever the other fields of later
  records are. For \<^verbatim>\<open>removeDuplicateEvents\<close> by itself the record kept is the first of
  its own input.
\<close>

theorem reconcile_unique_first_upcoming:
  "distinct (map event_id (reconcile parseDate now l)) \<and>
   (\<forall>e \<in> set (reconcile parseDate now l).
      first_with_id (event_id e) (upcomingEvents parseDate now l) = Some e) \<and>
   distinct (map event_id (removeDuplicateEvents es)) \<and>
   (\<forall>e \<in> set (removeDuplicateEvents es). first_with_id (event_id e) es = Some e)"
  by (simp add: reconcile_eq removeDuplicateEvents_distinct removeDuplicateEvents_first)

theorem reconcile_unique_first_upcoming_witness:
  "mk_event 1 ''first'' ''2099-01-01''
     \<in> set (reconcile scenario_parseDate scenario_now scenario_input) \<and>
   first_with_id 1 (upcomingEvents scenario_parseDate scenario_now scenario_input)
     = Some (mk_event 1 ''first'' ''2099-01-01'') \<and>
   mk_event 1 ''first'' ''2099-01-01'' \<in> set (removeDuplicateEvents scenario_input) \<and>
   first_with_id 1 scenario_input = Some (mk_event 1 ''first'' ''2099-01-01'') \<and>
   distinct (map event_id (reconcile scenario_parseDate scenario_now scenario_input))"
proof -
  have kept: "mk_event 1 ''first'' ''2099-01-01''
     \<in> set (reconcile scenario_parseDate scenario_now scenario_input)"
    by (simp add: scenario_eval)
  have kept': "mk_event 1 ''first'' ''2099-01-01'' \<in> set (removeDuplicateEvents scenario_input)"
    by (simp add: scenario_eval)
  have i: "event_id (mk_event 1 ''first'' ''2099-01-01'') = 1"
    by (simp add: mk_event_def)
  note all = reconcile_unique_first_upcoming
    [of scenario_parseDate scenario_now scenario_input scenario_input]
  from all kept
  have "first_with_id (event_id (mk_event 1 ''first'' ''2099-01-01''))
          (upcomingEvents scenario_parseDate scenario_now scenario_input)
          = Some (mk_event 1 ''first'' ''2099-01-01'')"
    by blast
  moreover from all kept'
  have "first_with_id (event_id (mk_event 1 ''first'' ''2099-01-01'')) scenario_input
          = Some (mk_event 1 ''first'' ''2099-01-01'')"
    by blast
  moreover from all
  have "distinct (map event_id (reconcile scenario_parseDate scenario_now scenario_input))"
    by blast
  ultimately show ?thesis
    using kept kept' by (simp only: i simp_thms)
qed

text \<open>
  The input of the counterexample has an ended record and then an open one with the same
  identifier: the open one is kept, and it is not the first record with that identifier.
\<close>

theorem reconcile_first_occurrence_counterexample:
  "reconcile scenario_parseDate scenario_now
     [mk_event 1 ''ended'' ''2000-01-01'', mk_event 1 ''open'' ''2099-01-01'']
     = [mk_event 1 ''open'' ''2099-01-01''] \<and>
   first_with_id 1 [mk_event 1 ''ended'' ''2000-01-01'', mk_event 1 ''open'' ''2099-01-01'']
     = Some (mk_event 1 ''ended'' ''2000-01-01'') \<and>
   mk_event 1 ''ended'' ''2000-01-01'' \<noteq> mk_event 1 ''open'' ''2099-01-01''"
  by (simp add: scenario_eval first_with_id_def)

text \<open>
  C3. The reconciliation of the code is the specification's two steps in their order:
  the temporal filter, then the deduplication that keeps first occurrences. So when the
  first record with an identifier has ended and a later record with that identifier has
  not, a later record with that identifier that has not ended is in the output.
\<close>

theorem reconcile_filter_then_dedupe:
  "reconcile parseDate now l = spec_reconcile parseDate now l \<and>
   (\<forall>pre e1 rest e2.
      l = pre @ e1 # rest \<and> event_id e1 \<notin> event_id ` set pre \<and>
      \<not> date_ge (parseDate (end_time e1)) (Some now) \<and>
      e2 \<in> set rest \<and> event_id e2 = event_id e1 \<and>
      date_ge (parseDate (end_time e2)) (Some now)
      \<longrightarrow> (\<exists>e' \<in> set rest. event_id e' = event_id e1 \<and>
             date_ge (parseDate (end_time e')) (Some now) \<and>
             e' \<in> set (reconcile parseDate now l)))"
proof -
  have order: "reconcile parseDate now l = spec_reconcile parseDate now l"
    by (simp add: reconcile_eq spec_reconcile_def spec_temporal_filter_eq spec_dedupe_eq)
  have later: "\<exists>e' \<in> set rest. event_id e' = event_id e1 \<and>
             date_ge (parseDate (end_time e')) (Some now) \<and>
             e' \<in> set (reconcile parseDate now l)"
    if l: "l = pre @ e1 # rest"
      and first: "event_id e1 \<notin> event_id ` set pre"
      and expired: "\<not> date_ge (parseDate (end_time e1)) (Some now)"
      and e2: "e2 \<in> set rest" "event_id e2 = event_id e1"
        "date_ge (parseDate (end_time e2)) (Some now)"
    for pre e1 rest e2
  proof -
    from l e2 have "e2 \<in> {e \<in> set l. date_ge (parseDate (end_time e)) (Some now)}"
      by simp
    then have "event_id e2 \<in> event_id ` {e \<in> set l. date_ge (parseDate (end_time e)) (Some now)}"
      by (rule imageI)
    with e2(2)
    have "event_id e1 \<in> event_id ` {e \<in> set l. date_ge (parseDate (end_time e)) (Some now)}"
      by simp
    then have "event_id e1 \<in> event_id ` set (reconcile parseDate now l)"
      by (simp only: reconcile_ids)
    then obtain e' where e': "e' \<in> set (reconcile parseDate now l)" "event_id e' = event_id e1"
      by auto
    from e'(1) have up: "e' \<in> set l" "date_ge (parseDate (end_time e')) (Some now)"
      by (auto dest: reconcile_set_upcoming)
    from up(2) expired have "e' \<noteq> e1" by auto
    moreover from first e'(2) have "e' \<notin> set pre" by (metis imageI)
    ultimately have "e' \<in> set rest"
      using up(1) l by auto
    with e' up show ?thesis by blast
  qed
  from order later show ?thesis
    by blast
qed

theorem reconcile_filter_then_dedupe_witness:
  "reconcile scenario_parseDate scenario_now
     [mk_event 1 ''ended'' ''2000-01-01'', mk_event 1 ''open'' ''2099-01-01'']
     = spec_reconcile scenario_parseDate scenario_now
         [mk_event 1 ''ended'' ''2000-01-01'', mk_event 1 ''open'' ''2099-01-01''] \<and>
   \<not> date_ge (scenario_parseDate (end_time (mk_event 1 ''ended'' ''2000-01-01'')))
        (Some scenario_now) \<and>
   date_ge (scenario_parseDate (end_time (mk_event 1 ''open'' ''2099-01-01'')))
     (Some scenario_now) \<and>
   event_id (mk_event 1 ''open'' ''2099-01-01'') = event_id (mk_event 1 ''ended'' ''2000-01-01'') \<and>
   mk_event 1 ''open'' ''2099-01-01''
     \<in> set (reconcile scenario_parseDate scenario_now
              [mk_event 1 ''ended'' ''2000-01-01'', mk_event 1 ''open'' ''2099-01-01''])"
proof -
  let ?e1 = "mk_event 1 ''ended'' ''2000-01-01''"
  let ?e2 = "mk_event 1 ''open'' ''2099-01-01''"
  have expired: "\<not> date_ge (scenario_parseDate (end_time ?e1)) (Some scenario_now)"
    by (simp add: scenario_eval)
  have upcoming: "date_ge (scenario_parseDate (end_time ?e2)) (Some scenario_now)"
    by (simp add: scenario_eval)
  have same: "event_id ?e2 = event_id ?e1"
    by (simp add: mk_event_def)
  have shape: "[?e1, ?e2] = [] @ ?e1 # [?e2] \<and> event_id ?e1 \<notin> event_id ` set []
      \<and> ?e2 \<in> set [?e2]"
    by simp
  note both = reconcile_filter_then_dedupe [of scenario_parseDate scenario_now "[?e1, ?e2]"]
  from both have order: "reconcile scenario_parseDate scenario_now [?e1, ?e2]
     = spec_reconcile scenario_parseDate scenario_now [?e1, ?e2]"
    by (rule conjunct1)
  from both shape expired upcoming same
  have "\<exists>e' \<in> set [?e2]. event_id e' = event_id ?e1 \<and>
          date_ge (scenario_parseDate (end_time e')) (Some scenario_now) \<and>
          e' \<in> set (reconcile scenario_parseDate scenario_now [?e1, ?e2])"
    by blast
  then have "?e2 \<in> set (reconcile scenario_parseDate scenario_now [?e1, ?e2])"
    by simp
  with order expired upcoming same show ?thesis
    by (simp only: simp_thms)
qed

text \<open>
  C4. The reconciliation is idempotent: reconciling the output of a reconciliation
  again, at the same instant, gives the same list.
\<close>

theorem reconcile_idempotent:
  "reconcile parseDate now (reconcile parseDate now l) = reconcile parseDate now l"
proof -
  let ?out = "reconcile parseDate now l"
  have "upcomingEvents parseDate now ?out = ?out"
    unfolding upcomingEvents_def
    by (rule filter_True) (auto dest: reconcile_set_upcoming)
  moreover have "removeDuplicateEvents ?out = ?out"
    unfolding reconcile_eq
    by (rule removeDuplicateEvents_fixed) (rule removeDuplicateEvents_distinct)
  ultimately show ?thesis
    by (simp add: reconcile_eq)
qed

text \<open>
  C5. The reconciliation keeps the input order. The records of the output are the
  records at the retained positions of the input, in the order of their positions; so of
  two retained records, the one that comes first in the input comes first in the output.
  Records are taken by position, as the JavaScript array holds one object per position.
\<close>

theorem reconcile_keeps_order:
  "reconcile parseDate now l
     = map (nth l) (filter (retained parseDate now l) [0..<length l]) \<and>
   (\<forall>i j. i < j \<and> retained parseDate now l i \<and> retained parseDate now l j
      \<longrightarrow> (\<exists>i' j'. i' < j' \<and> j' < length (reconcile parseDate now l) \<and>
             reconcile parseDate now l ! i' = l ! i \<and>
             reconcile parseDate now l ! j' = l ! j))"
proof -
  let ?ks = "filter (retained parseDate now l) [0..<length l]"
  have out: "reconcile parseDate now l = map (nth l) ?ks"
    by (rule reconcile_positions)
  have sorted: "sorted_wrt (<) ?ks"
    by (rule sorted_wrt_filter) simp
  have order: "\<exists>i' j'. i' < j' \<and> j' < length (reconcile parseDate now l) \<and>
             reconcile parseDate now l ! i' = l ! i \<and>
             reconcile parseDate now l ! j' = l ! j"
    if "i < j" and ri: "retained parseDate now l i" and rj: "retained parseDate now l j" for i j
  proof -
    from ri have "i \<in> set ?ks" by (simp add: retained_def)
    then obtain i' where i': "i' < length ?ks" "?ks ! i' = i"
      unfolding in_set_conv_nth by blast
    from rj have "j \<in> set ?ks" by (simp add: retained_def)
    then obtain j' where j': "j' < length ?ks" "?ks ! j' = j"
      unfolding in_set_conv_nth by blast
    have "i' < j'"
    proof (rule ccontr)
      assume "\<not> i' < j'"
      then consider "j' < i'" | "j' = i'" by linarith
      then show False
      proof cases
        case 1
        with sorted i'(1) have "?ks ! j' < ?ks ! i'"
          by (simp only: sorted_wrt_iff_nth_less)
        with i'(2) j'(2) \<open>i < j\<close> show False by simp
      next
        case 2
        with i'(2) j'(2) \<open>i < j\<close> show False by simp
      qed
    qed
    moreover from j'(1) have "j' < length (reconcile parseDate now l)"
      by (simp add: out)
    moreover from i' have "reconcile parseDate now l ! i' = l ! i"
      by (simp add: out)
    moreover from j' have "reconcile parseDate now l ! j' = l ! j"
      by (simp add: out)
    ultimately show ?thesis by blast
  qed
  from out order show ?thesis by blast
qed

theorem reconcile_keeps_order_witness:
  "(0::nat) < 2 \<and>
   retained scenario_parseDate scenario_now scenario_mixed 0 \<and>
   retained scenario_parseDate scenario_now scenario_mixed 2 \<and>
   (\<exists>i' j'. i' < j' \<and>
      j' < length (reconcile scenario_parseDate scenario_now scenario_mixed) \<and>
      reconcile scenario_parseDate scenario_now scenario_mixed ! i' = scenario_mixed ! 0 \<and>
      reconcile scenario_parseDate scenario_now scenario_mixed ! j' = scenario_mixed ! 2) \<and>
   reconcile scenario_parseDate scenario_now scenario_mixed
     = [mk_event 1 ''first'' ''2099-01-01'', mk_event 3 ''third'' ''2099-06-01'']"
proof -
  have r0: "retained scenario_parseDate scenario_now scenario_mixed 0"
    by code_simp
  have r2: "retained scenario_parseDate scenario_now scenario_mixed 2"
    by code_simp
  have lt: "(0::nat) < 2"
    by simp
  have out: "reconcile scenario_parseDate scenario_now scenario_mixed
     = [mk_event 1 ''first'' ''2099-01-01'', mk_event 3 ''third'' ''2099-06-01'']"
    by code_simp
  from reconcile_keeps_order [of scenario_parseDate scenario_now scenario_mixed] lt r0 r2
  have "\<exists>i' j'. i' < j' \<and>
      j' < length (reconcile scenario_parseDate scenario_now scenario_mixed) \<and>
      reconcile scenario_parseDate scenario_now scenario_mixed ! i' = scenario_mixed ! 0 \<and>
      reconcile scenario_parseDate scenario_now scenario_mixed ! j' = scenario_mixed ! 2"
    by blast
  with lt r0 r2 out show ?thesis
    by (simp only: simp_thms)
qed

text \<open>
  C6. The reconciliation raises no error: a record whose end time cannot be read as an
  instant is left out of the output, an input of one such record gives the empty list, and
  a fetch that brings an array ends on the path that stores the reconciled list, with no
  error logged.
\<close>

theorem reconcile_unparseable_excluded:
  "(\<forall>e. parseDate (end_time e) = None \<longrightarrow> e \<notin> set (reconcile parseDate now l)) \<and>
   (\<forall>e :: EventData. parseDate (end_time e) = None \<longrightarrow> reconcile parseDate now [e] = []) \<and>
   (\<forall>s uid. userId s = Some uid \<longrightarrow>
      fetchEventData parseDate now (JsonData (JsonArray l)) s
        = (s\<lparr>events := reconcile parseDate now l, loading := False\<rparr>,
           [ConsoleLog ''Fetched events:'' (reconcile parseDate now l)]))"
proof (intro conjI allI impI)
  fix e :: EventData
  assume bad: "parseDate (end_time e) = None"
  show "e \<notin> set (reconcile parseDate now l)"
  proof
    assume "e \<in> set (reconcile parseDate now l)"
    then have "date_ge (parseDate (end_time e)) (Some now)"
      by (auto dest: reconcile_set_upcoming)
    with bad show False
      by (simp add: date_ge_Some)
  qed
  from bad show "reconcile parseDate now [e] = []"
    by (simp add: reconcile_eq upcomingEvents_def date_ge_def removeDuplicateEvents_Nil)
next
  fix s :: screen_state and uid
  assume "userId s = Some uid"
  then show "fetchEventData parseDate now (JsonData (JsonArray l)) s
        = (s\<lparr>events := reconcile parseDate now l, loading := False\<rparr>,
           [ConsoleLog ''Fetched events:'' (reconcile parseDate now l)])"
    by (simp add: fetchEventData_def Let_def)
qed

theorem reconcile_unparseable_excluded_witness:
  "scenario_parseDate (end_time (mk_event 3 ''broken'' ''not a date'')) = None \<and>
   reconcile scenario_parseDate scenario_now [mk_event 3 ''broken'' ''not a date''] = [] \<and>
   mk_event 3 ''broken'' ''not a date''
     \<notin> set (reconcile scenario_parseDate scenario_now
               (mk_event 3 ''broken'' ''not a date'' # scenario_input)) \<and>
   userId scenario_state = Some ''7'' \<and>
   fetchEventData scenario_parseDate scenario_now
       (JsonData (JsonArray [mk_event 3 ''broken'' ''not a date''])) scenario_state
     = (scenario_state\<lparr>loading := False\<rparr>, [ConsoleLog ''Fetched events:'' []])"
proof -
  have bad: "scenario_parseDate (end_time (mk_event 3 ''broken'' ''not a date'')) = None"
    by (simp add: scenario_parseDate_def mk_event_def)
  have u: "userId scenario_state = Some ''7''"
    by (simp add: scenario_state_def initial_state_def)
  from reconcile_unparseable_excluded
         [of scenario_parseDate scenario_now "mk_event 3 ''broken'' ''not a date'' # scenario_input"]
       bad
  have a: "mk_event 3 ''broken'' ''not a date''
     \<notin> set (reconcile scenario_parseDate scenario_now
               (mk_event 3 ''broken'' ''not a date'' # scenario_input))"
    by blast
  from reconcile_unparseable_excluded
         [of scenario_parseDate scenario_now "[mk_event 3 ''broken'' ''not a date'']"]
       bad
  have b: "reconcile scenario_parseDate scenario_now [mk_event 3 ''broken'' ''not a date''] = []"
    by blast
  from reconcile_unparseable_excluded
         [of scenario_parseDate scenario_now "[mk_event 3 ''broken'' ''not a date'']"]
       u
  have "fetchEventData scenario_parseDate scenario_now
       (JsonData (JsonArray [mk_event 3 ''broken'' ''not a date''])) scenario_state
     = (scenario_state\<lparr>events := reconcile scenario_parseDate scenario_now [mk_event 3 ''broken'' ''not a date''],
           loading := False\<rparr>,
        [ConsoleLog ''Fetched events:'' (reconcile scenario_parseDate scenario_now [mk_event 3 ''broken'' ''not a date''])])"
    by blast
  then have c: "fetchEventData scenario_parseDate scenario_now
       (JsonData (JsonArray [mk_event 3 ''broken'' ''not a date''])) scenario_state
     = (scenario_state\<lparr>loading := False\<rparr>, [ConsoleLog ''Fetched events:'' []])"
    by (simp add: b scenario_state_def initial_state_def)
  from bad a b u c show ?thesis by simp
qed

text \<open>
  C7. As the claim is worded it fails: a payload that is not an array does not empty
  the list. What holds: handling such a payload logs an error, clears the loading flag
  and leaves the event list as it was, so the screen shows the previous list (no events
  only when the list was empty before).
\<close>

theorem non_array_payload_keeps_list:
  "userId s = Some uid \<Longrightarrow>
     fetchEventData parseDate now (JsonData JsonOther) s
       = (s\<lparr>loading := False\<rparr>, [ConsoleError ''Invalid data format:'']) \<and>
     events (fst (fetchEventData parseDate now (JsonData JsonOther) s)) = events s \<and>
     render (fst (fetchEventData parseDate now (JsonData JsonOther) s))
       = (if events s = [] then NoDataText else EventCards (events s))"
  by (simp add: fetchEventData_def render_def)

theorem non_array_payload_keeps_list_witness:
  "userId scenario_state = Some ''7'' \<and>
   fetchEventData scenario_parseDate scenario_now (JsonData JsonOther) scenario_state
     = (scenario_state\<lparr>loading := False\<rparr>, [ConsoleError ''Invalid data format:'']) \<and>
   render (fst (fetchEventData scenario_parseDate scenario_now (JsonData JsonOther)
                  scenario_state)) = NoDataText"
proof -
  have u: "userId scenario_state = Some ''7''"
    by (simp add: scenario_state_def initial_state_def)
  from non_array_payload_keeps_list [OF u, of scenario_parseDate scenario_now] u
  show ?thesis
    by (simp add: scenario_state_def initial_state_def render_def)
qed

text \<open>
  A first fetch brings the scenario's array, a second one a payload that is not an array:
  the screen still shows the event of the first fetch.
\<close>

theorem non_array_payload_counterexample:
  "events scenario_loaded = [mk_event 1 ''first'' ''2099-01-01''] \<and>
   events (fst (fetchEventData scenario_parseDate scenario_now (JsonData JsonOther)
                  scenario_loaded))
     = [mk_event 1 ''first'' ''2099-01-01''] \<and>
   render (fst (fetchEventData scenario_parseDate scenario_now (JsonData JsonOther)
                  scenario_loaded))
     = EventCards [mk_event 1 ''first'' ''2099-01-01'']"
  by (simp add: scenario_loaded_def fetchEventData_def scenario_state_def initial_state_def
        render_def scenario_eval Let_def)

text \<open>
  C8. A deletion that fails, because the server reports a failure or the request is
  rejected, leaves the state of the screen, and so the event list, as it was.
\<close>

theorem deleteEvent_failure_unchanged:
  "response \<noteq> DeleteOk \<Longrightarrow> fst (deleteEvent response eventId s) = s"
  by (cases response) (auto simp: deleteEvent_def split: error_data.splits)

theorem deleteEvent_failure_unchanged_witness:
  "DeleteNotOk (ErrorData (Some ''Event not found'')) \<noteq> DeleteOk \<and>
   DeleteRejected \<noteq> DeleteOk \<and>
   fst (deleteEvent (DeleteNotOk (ErrorData (Some ''Event not found''))) 1
          (scenario_state\<lparr>events := scenario_input\<rparr>))
     = scenario_state\<lparr>events := scenario_input\<rparr> \<and>
   fst (deleteEvent DeleteRejected 1 (scenario_state\<lparr>events := scenario_input\<rparr>))
     = scenario_state\<lparr>events := scenario_input\<rparr>"
  using deleteEvent_failure_unchanged
          [of "DeleteNotOk (ErrorData (Some ''Event not found''))" 1
              "scenario_state\<lparr>events := scenario_input\<rparr>"]
        deleteEvent_failure_unchanged
          [of DeleteRejected 1 "scenario_state\<lparr>events := scenario_input\<rparr>"]
  by simp

text \<open>
  C9. After a successful deletion the event list is the old list without the records
  that bear the deleted identifier: no such record is left, the records with other
  identifiers are all there, unchanged and in their order, and nothing else in the state
  changes.
\<close>

theorem deleteEvent_success_removes:
  "events (fst (deleteEvent DeleteOk eventId s))
     = filter (\<lambda>event. event_id event \<noteq> eventId) (events s) \<and>
   eventId \<notin> event_id ` set (events (fst (deleteEvent DeleteOk eventId s))) \<and>
   filter (\<lambda>event. event_id event \<noteq> eventId) (events (fst (deleteEvent DeleteOk eventId s)))
     = filter (\<lambda>event. event_id event \<noteq> eventId) (events s) \<and>
   subseq (events (fst (deleteEvent DeleteOk eventId s))) (events s) \<and>
   loading (fst (deleteEvent DeleteOk eventId s)) = loading s \<and>
   userId (fst (deleteEvent DeleteOk eventId s)) = userId s"
  by (auto simp: deleteEvent_def)

text \<open>
  C10. The output of the reconciliation is a subsequence of the input: every record of
  the output is a record of the input, and the output is no longer than the input.
\<close>

theorem reconcile_subsequence:
  "subseq (reconcile parseDate now l) l \<and>
   set (reconcile parseDate now l) \<subseteq> set l \<and>
   length (reconcile parseDate now l) \<le> length l"
proof -
  have sub: "subseq (reconcile parseDate now l) l"
    by (rule reconcile_subseq)
  from sub have "set (reconcile parseDate now l) \<subseteq> set l"
    by (auto dest: list_emb_set)
  moreover from sub have "length (reconcile parseDate now l) \<le> length l"
    by (rule list_emb_length)
  ultimately show ?thesis
    using sub by simp
qed

end
